theory Spec2Isabelle
  imports Main
begin

section \<open>Python values used by \<^verbatim>\<open>yh_get_all_sym.py\<close>\<close>

text \<open>
  Text is a HOL \<open>string\<close>: a list of 8-bit characters, so response bodies are modelled
  for code points below 256. Python integers are \<open>int\<close>. An exception is a value of
  \<open>exn\<close>; a computation that may raise returns \<open>exn + 'a\<close> with \<open>Inl\<close> the raised
  exception. Every constructor of \<open>exn\<close> stands for a subclass of Python's
  \<^verbatim>\<open>Exception\<close>, which is what the \<^verbatim>\<open>except Exception\<close> handlers of the source
  catch; cancellation and keyboard interrupts (subclasses of \<^verbatim>\<open>BaseException\<close> only)
  are signals from outside the program and are not modelled.
\<close>

datatype exn =
    ClientError             \<comment> \<open>connection failure inside \<^verbatim>\<open>session.get\<close>\<close>
  | TimeoutError
  | ClientResponseError nat \<comment> \<open>\<^verbatim>\<open>raise_for_status\<close> on a non-success status\<close>
  | PayloadError            \<comment> \<open>\<^verbatim>\<open>response.text()\<close> failed\<close>
  | ParserError             \<comment> \<open>raised while BeautifulSoup reads the body\<close>
  | ValueError
  | TypeError
  | AttributeError

definition py_isspace :: "char \<Rightarrow> bool" where
  \<comment> \<open>\<^verbatim>\<open>str.isspace\<close> on code points below 256\<close>
  "py_isspace c \<longleftrightarrow>
     c \<in> set [CHR 0x09, CHR 0x0A, CHR 0x0B, CHR 0x0C, CHR 0x0D,
              CHR 0x1C, CHR 0x1D, CHR 0x1E, CHR 0x1F, CHR 0x20, CHR 0x85, CHR 0xA0]"

definition py_strip :: "string \<Rightarrow> string" where
  \<comment> \<open>\<^verbatim>\<open>s.strip()\<close>\<close>
  "py_strip s = rev (dropWhile py_isspace (rev (dropWhile py_isspace s)))"

primrec find_aux :: "string \<Rightarrow> string \<Rightarrow> nat \<Rightarrow> int" where
  "find_aux sub [] i = (if sub = [] then int i else - 1)"
| "find_aux sub (c # cs) i =
     (if take (length sub) (c # cs) = sub then int i else find_aux sub cs (Suc i))"

definition py_find :: "string \<Rightarrow> string \<Rightarrow> int \<Rightarrow> int" where
  \<comment> \<open>\<^verbatim>\<open>s.find(sub, start)\<close>: the lowest index at or after \<open>start\<close> where \<open>sub\<close> occurs,
      \<open>-1\<close> when there is none\<close>
  "py_find s sub start =
     (let n = int (length s);
          lo = (if start < 0 then max 0 (n + start) else start)
      in if n < lo then - 1 else find_aux sub (drop (nat lo) s) (nat lo))"

definition py_slice :: "string \<Rightarrow> int \<Rightarrow> int \<Rightarrow> string" where
  \<comment> \<open>\<^verbatim>\<open>s[start:end]\<close>: a negative index counts from the end, both are clamped\<close>
  "py_slice s start end =
     (let n = int (length s);
          lo = (if start < 0 then max 0 (n + start) else min start n);
          hi = (if end < 0 then max 0 (n + end) else min end n)
      in take (nat (hi - lo)) (drop (nat lo) s))"

definition is_digit :: "char \<Rightarrow> bool" where
  "is_digit c \<longleftrightarrow> 48 \<le> (of_char c :: nat) \<and> (of_char c :: nat) \<le> 57"

definition digit_val :: "char \<Rightarrow> nat" where
  "digit_val c = of_char c - 48"

fun py_digits :: "nat \<Rightarrow> string \<Rightarrow> nat option" where
  \<comment> \<open>the rest of a decimal literal after a digit: digits, each optionally preceded by
      one underscore\<close>
  "py_digits acc [] = Some acc"
| "py_digits acc (c # cs) =
     (if is_digit c then py_digits (10 * acc + digit_val c) cs
      else if c = CHR ''_'' then
        (case cs of
           [] \<Rightarrow> None
         | d # ds \<Rightarrow> if is_digit d then py_digits (10 * acc + digit_val d) ds else None)
      else None)"

definition py_unsigned :: "string \<Rightarrow> nat option" where
  "py_unsigned s =
     (case s of [] \<Rightarrow> None | c # cs \<Rightarrow> if is_digit c then py_digits (digit_val c) cs else None)"

definition py_int :: "string \<Rightarrow> exn + int" where
  \<comment> \<open>\<^verbatim>\<open>int(s)\<close> on a string: surrounding whitespace is dropped, then an optional sign
      and a decimal literal; anything else raises \<^verbatim>\<open>ValueError\<close>. (The limit on the number
      of digits that recent interpreters add raises \<^verbatim>\<open>ValueError\<close> as well and is not
      modelled.)\<close>
  "py_int s =
     (case py_strip s of
        [] \<Rightarrow> Inl ValueError
      | c # cs \<Rightarrow>
          if c = CHR ''-'' then
            (case py_unsigned cs of None \<Rightarrow> Inl ValueError | Some n \<Rightarrow> Inr (- int n))
          else if c = CHR ''+'' then
            (case py_unsigned cs of None \<Rightarrow> Inl ValueError | Some n \<Rightarrow> Inr (int n))
          else
            (case py_unsigned (c # cs) of None \<Rightarrow> Inl ValueError | Some n \<Rightarrow> Inr (int n)))"

function str_nat :: "nat \<Rightarrow> string" where
  \<comment> \<open>the decimal text an f-string writes for a non-negative integer\<close>
  "str_nat n =
     (if n < 10 then [''0123456789'' ! n] else str_nat (n div 10) @ [''0123456789'' ! (n mod 10)])"
  by pat_completeness auto
termination
  by (relation "measure id") auto

declare str_nat.simps [simp del]

definition str_int :: "int \<Rightarrow> string" where
  "str_int i = (if i < 0 then CHR ''-'' # str_nat (nat (- i)) else str_nat (nat i))"

section \<open>\<^verbatim>\<open>extract_count\<close>\<close>

definition count_slice :: "string \<Rightarrow> string" where
  \<comment> \<open>\<^verbatim>\<open>body[start:end]\<close> with \<^verbatim>\<open>start = body.find('Stocks (') + 8\<close> and
      \<^verbatim>\<open>end = body.find(')', start)\<close>\<close>
  "count_slice body =
     (let start = py_find body ''Stocks ('' 0 + 8;
          end = py_find body '')'' start
      in py_slice body start end)"

definition extract_count :: "string \<Rightarrow> string \<Rightarrow> exn + int" where
  \<comment> \<open>the \<^verbatim>\<open>try\<close> body computes \<^verbatim>\<open>int(body[start:end])\<close>; the handler catches
      \<^verbatim>\<open>ValueError\<close> and \<^verbatim>\<open>TypeError\<close> and returns 0, any other exception would
      propagate\<close>
  "extract_count body search_term =
     (case py_int (count_slice body) of
        Inr count \<Rightarrow> Inr count
      | Inl e \<Rightarrow> if e = ValueError \<or> e = TypeError then Inr 0 else Inl e)"

section \<open>The lookup service and the page parser\<close>

text \<open>
  The program talks to the lookup service through \<^verbatim>\<open>session.get\<close> and reads pages
  with BeautifulSoup. Both are parameters of the model. Every URL the program builds is
  requested by one call of \<^verbatim>\<open>fetch_url\<close> only (the probe URL of a term ends in
  \<^verbatim>\<open>c=25\<close>, the block URLs of a term differ in \<^verbatim>\<open>b\<close>, and no term is processed
  twice), so what the service answers in one run is a function of the URL and of the
  number of the attempt within that call.
\<close>

record response =
  status :: nat
  body_text :: "exn + string" \<comment> \<open>what \<^verbatim>\<open>await response.text()\<close> gives\<close>

record env =
  session_get :: "string \<Rightarrow> nat \<Rightarrow> exn + response"
    \<comment> \<open>\<^verbatim>\<open>session.get(url, headers=HEADERS)\<close> at the given attempt (counted from 0)\<close>
  soup_table :: "string \<Rightarrow> exn + string option list option"
    \<comment> \<open>\<^verbatim>\<open>BeautifulSoup(body, 'html.parser').find('table', {'class': 'W(100%)'})\<close>:
        \<open>None\<close> when there is no such table, else its \<^verbatim>\<open>tr\<close> rows, each row given by
        the text of its \<^verbatim>\<open>td\<close> cell labelled \<^verbatim>\<open>Symbol\<close> (\<open>None\<close> when the row has none)\<close>

datatype event = Request string | Warning nat exn | Sleep nat

section \<open>\<^verbatim>\<open>fetch_url\<close>\<close>

definition get_text :: "env \<Rightarrow> string \<Rightarrow> nat \<Rightarrow> exn + string" where
  \<comment> \<open>the \<^verbatim>\<open>try\<close> body of one attempt: \<^verbatim>\<open>session.get\<close>, \<^verbatim>\<open>raise_for_status\<close>
      (raises from status 400 on), \<^verbatim>\<open>response.text()\<close>\<close>
  "get_text env url attempt =
     (case session_get env url attempt of
        Inl e \<Rightarrow> Inl e
      | Inr response \<Rightarrow>
          if 400 \<le> status response then Inl (ClientResponseError (status response))
          else body_text response)"

primrec fetch_url_loop ::
  "env \<Rightarrow> string \<Rightarrow> nat \<Rightarrow> nat list \<Rightarrow> (exn + string option) \<times> event list" where
  \<comment> \<open>\<^verbatim>\<open>for attempt in range(retries)\<close>; the result comes with the trace of requests,
      logged warnings and sleeps. Falling out of the loop returns \<^verbatim>\<open>None\<close>.\<close>
  "fetch_url_loop env url retries [] = (Inr None, [])"
| "fetch_url_loop env url retries (attempt # rest) =
     (case get_text env url attempt of
        Inr body \<Rightarrow> (Inr (Some body), [Request url])
      | Inl e \<Rightarrow>
          if Suc attempt = retries then (Inl e, [Request url, Warning (attempt + 1) e])
          else (case fetch_url_loop env url retries rest of
                  (r, evs) \<Rightarrow> (r, Request url # Warning (attempt + 1) e # Sleep 1 # evs)))"

definition fetch_url :: "env \<Rightarrow> string \<Rightarrow> nat \<Rightarrow> (exn + string option) \<times> event list" where
  \<comment> \<open>\<open>retries\<close> is a natural number: both callers use the default of 3, and
      \<^verbatim>\<open>range\<close> of a negative number is as empty as \<^verbatim>\<open>range(0)\<close>\<close>
  "fetch_url env url retries = fetch_url_loop env url retries [0..<retries]"



section \<open>\<^verbatim>\<open>process_block\<close>\<close>

definition set_update :: "'a set \<Rightarrow> 'a set \<Rightarrow> 'a set" where
  \<comment> \<open>\<^verbatim>\<open>s.update(other)\<close> on Python sets, returning the updated \<open>s\<close>\<close>
  "set_update s other = s \<union> other"

definition block_url :: "string \<Rightarrow> int \<Rightarrow> string" where
  "block_url search_term block =
     ''https://finance.yahoo.com/lookup/equity?s='' @ search_term @ ''&t=A&b='' @ str_int block
       @ ''&c=100''"

primrec add_rows :: "string option list \<Rightarrow> string set \<Rightarrow> string set" where
  \<comment> \<open>\<^verbatim>\<open>for row in rows\<close>\<close>
  "add_rows [] symbols = symbols"
| "add_rows (row # rows) symbols =
     (case row of
        None \<Rightarrow> add_rows rows symbols
      | Some cell_text \<Rightarrow>
          (let symbol = py_strip cell_text
           in if symbol \<noteq> [] then add_rows rows (insert symbol symbols)
              else add_rows rows symbols))"

definition process_block_try :: "env \<Rightarrow> string \<Rightarrow> int \<Rightarrow> exn + string set" where
  \<comment> \<open>the \<^verbatim>\<open>try\<close> body. \<^verbatim>\<open>fetch_url\<close> is called with its default of 3 retries; were it
      to return \<^verbatim>\<open>None\<close>, BeautifulSoup would raise on it.\<close>
  "process_block_try env search_term block =
     (case fst (fetch_url env (block_url search_term block) 3) of
        Inl e \<Rightarrow> Inl e
      | Inr None \<Rightarrow> Inl TypeError
      | Inr (Some body) \<Rightarrow>
          (case soup_table env body of
             Inl e \<Rightarrow> Inl e
           | Inr None \<Rightarrow> Inr {}
           | Inr (Some rows) \<Rightarrow> Inr (add_rows rows {})))"

definition process_block :: "env \<Rightarrow> string \<Rightarrow> int \<Rightarrow> exn + string set" where
  \<comment> \<open>\<^verbatim>\<open>except Exception\<close> logs and falls through to \<^verbatim>\<open>return symbols\<close>; every raise
      of the body happens before the first \<^verbatim>\<open>symbols.add\<close>, so \<open>symbols\<close> is empty then\<close>
  "process_block env search_term block =
     (case process_block_try env search_term block of
        Inl e \<Rightarrow> Inr {}
      | Inr symbols \<Rightarrow> Inr symbols)"

section \<open>\<^verbatim>\<open>process_search_term\<close>\<close>

definition probe_url :: "string \<Rightarrow> string" where
  "probe_url search_term =
     ''https://finance.yahoo.com/lookup/equity?s='' @ search_term @ ''&t=A&b=0&c=25''"

function block_range :: "int \<Rightarrow> int \<Rightarrow> int list" where
  \<comment> \<open>\<^verbatim>\<open>range(block, stop, 100)\<close>\<close>
  "block_range block stop = (if block < stop then block # block_range (block + 100) stop else [])"
  by pat_completeness auto
termination
  by (relation "measure (\<lambda>(block, stop). nat (stop - block))") auto

declare block_range.simps [simp del]

definition planned_blocks :: "int \<Rightarrow> int list" where
  \<comment> \<open>the values of \<open>block\<close> in \<^verbatim>\<open>for block in range(0, min(count, 9000), 100)\<close>\<close>
  "planned_blocks count = block_range 0 (min count 9000)"

primrec gather :: "(exn + 'a) list \<Rightarrow> exn + 'a list" where
  \<comment> \<open>\<^verbatim>\<open>await asyncio.gather(*tasks)\<close>: the results in the order of the tasks, or the
      exception of a task that raised (here the first in task order)\<close>
  "gather [] = Inr []"
| "gather (t # ts) =
     (case t of
        Inl e \<Rightarrow> Inl e
      | Inr r \<Rightarrow> (case gather ts of Inl e \<Rightarrow> Inl e | Inr rs \<Rightarrow> Inr (r # rs)))"

primrec update_all :: "string set list \<Rightarrow> string set \<Rightarrow> string set" where
  \<comment> \<open>\<^verbatim>\<open>for result in results: symbols.update(result)\<close>\<close>
  "update_all [] symbols = symbols"
| "update_all (result # results) symbols = update_all results (set_update symbols result)"

definition process_search_term_try :: "env \<Rightarrow> string \<Rightarrow> exn + string set" where
  \<comment> \<open>the \<^verbatim>\<open>try\<close> body. Were \<^verbatim>\<open>fetch_url\<close> to return \<^verbatim>\<open>None\<close>, \<^verbatim>\<open>body.find\<close> would
      raise \<^verbatim>\<open>AttributeError\<close>, which the handler of \<^verbatim>\<open>extract_count\<close> does not catch.\<close>
  "process_search_term_try env search_term =
     (case fst (fetch_url env (probe_url search_term) 3) of
        Inl e \<Rightarrow> Inl e
      | Inr None \<Rightarrow> Inl AttributeError
      | Inr (Some body) \<Rightarrow>
          (case extract_count body search_term of
             Inl e \<Rightarrow> Inl e
           | Inr count \<Rightarrow>
               if count = 0 then Inr {}
               else (case gather (map (process_block env search_term) (planned_blocks count)) of
                       Inl e \<Rightarrow> Inl e
                     | Inr results \<Rightarrow> Inr (update_all results {}))))"

definition process_search_term :: "env \<Rightarrow> string \<Rightarrow> exn + string set" where
  \<comment> \<open>\<^verbatim>\<open>except Exception\<close> logs and falls through to \<^verbatim>\<open>return symbols\<close>; every raise
      of the body happens before the first \<^verbatim>\<open>symbols.update\<close>\<close>
  "process_search_term env search_term =
     (case process_search_term_try env search_term of
        Inl e \<Rightarrow> Inr {}
      | Inr symbols \<Rightarrow> Inr symbols)"

section \<open>\<^verbatim>\<open>main\<close>\<close>

text \<open>
  The state of the crawl loop: the global set, the search terms handed to
  \<^verbatim>\<open>process_search_term\<close> so far (in call order) and the totals logged after each
  2-character prefix. The model of \<^verbatim>\<open>main\<close> ends with the loop; writing the output file
  and printing the total are left out.
\<close>

record crawl =
  all_symbols :: "string set"
  searched :: "string list"
  totals :: "nat list"

definition search_chars :: "char list" where
  \<comment> \<open>\<^verbatim>\<open>[chr(x) for x in range(65, 91)] + [chr(x) for x in range(48, 58)]\<close>\<close>
  "search_chars = map char_of [65..<91::nat] @ map char_of [48..<58::nat]"

primrec main_c3_loop ::
  "env \<Rightarrow> char \<Rightarrow> char \<Rightarrow> char list \<Rightarrow> string set \<times> string list
     \<Rightarrow> exn + string set \<times> string list" where
  \<comment> \<open>\<^verbatim>\<open>for c3 in search_chars\<close>, on the prefix's \<open>symbols\<close> and the terms searched so far\<close>
  "main_c3_loop env c1 c2 [] acc = Inr acc"
| "main_c3_loop env c1 c2 (c3 # rest) acc =
     (case process_search_term env [c1, c2, c3] of
        Inl e \<Rightarrow> Inl e
      | Inr additional_symbols \<Rightarrow>
          main_c3_loop env c1 c2 rest
            (set_update (fst acc) additional_symbols, snd acc @ [[c1, c2, c3]]))"

definition main_c2_body :: "env \<Rightarrow> char \<Rightarrow> char \<Rightarrow> crawl \<Rightarrow> exn + crawl" where
  \<comment> \<open>the body of \<^verbatim>\<open>for c2 in search_chars\<close>\<close>
  "main_c2_body env c1 c2 st =
     (case process_search_term env [c1, c2] of
        Inl e \<Rightarrow> Inl e
      | Inr symbols \<Rightarrow>
          (case (if 9000 \<le> card symbols
                 then main_c3_loop env c1 c2 search_chars (symbols, searched st @ [[c1, c2]])
                 else Inr (symbols, searched st @ [[c1, c2]])) of
             Inl e \<Rightarrow> Inl e
           | Inr (symbols', terms) \<Rightarrow>
               Inr \<lparr>all_symbols = set_update (all_symbols st) symbols',
                    searched = terms,
                    totals = totals st @ [card (set_update (all_symbols st) symbols')]\<rparr>))"

primrec main_c2_loop :: "env \<Rightarrow> char \<Rightarrow> char list \<Rightarrow> crawl \<Rightarrow> exn + crawl" where
  "main_c2_loop env c1 [] st = Inr st"
| "main_c2_loop env c1 (c2 # rest) st =
     (case main_c2_body env c1 c2 st of
        Inl e \<Rightarrow> Inl e
      | Inr st' \<Rightarrow> main_c2_loop env c1 rest st')"

primrec main_c1_loop :: "env \<Rightarrow> char list \<Rightarrow> crawl \<Rightarrow> exn + crawl" where
  "main_c1_loop env [] st = Inr st"
| "main_c1_loop env (c1 # rest) st =
     (case main_c2_loop env c1 search_chars st of
        Inl e \<Rightarrow> Inl e
      | Inr st' \<Rightarrow> main_c1_loop env rest st')"

definition main :: "env \<Rightarrow> exn + crawl" where
  "main env = main_c1_loop env search_chars \<lparr>all_symbols = {}, searched = [], totals = []\<rparr>"

section \<open>Notation for the crawl loop\<close>

text \<open>
  Abbreviations for stating what the loop of \<^verbatim>\<open>main\<close> does with one 2-character
  prefix: the set \<^verbatim>\<open>process_search_term\<close> returns for a term, the test
  \<^verbatim>\<open>len(symbols) >= 9000\<close> on the prefix's own result, the terms searched for the
  prefix and the set merged into \<^verbatim>\<open>all_symbols\<close>. \<open>totals_ok\<close> is the loop invariant
  behind the logged totals.
\<close>

abbreviation term_symbols :: "env \<Rightarrow> string \<Rightarrow> string set" where
  "term_symbols env t \<equiv> projr (process_search_term env t)"

abbreviation refined :: "env \<Rightarrow> char \<Rightarrow> char \<Rightarrow> bool" where
  "refined env c1 c2 \<equiv> 9000 \<le> card (term_symbols env [c1, c2])"

abbreviation extensions :: "char \<Rightarrow> char \<Rightarrow> string list" where
  "extensions c1 c2 \<equiv> map (\<lambda>c3. [c1, c2, c3]) search_chars"

abbreviation prefix_terms :: "env \<Rightarrow> char \<Rightarrow> char \<Rightarrow> string list" where
  "prefix_terms env c1 c2 \<equiv> [c1, c2] # (if refined env c1 c2 then extensions c1 c2 else [])"

abbreviation prefix_symbols :: "env \<Rightarrow> char \<Rightarrow> char \<Rightarrow> string set" where
  "prefix_symbols env c1 c2 \<equiv>
     term_symbols env [c1, c2] \<union>
       (if refined env c1 c2 then (\<Union>c3\<in>set search_chars. term_symbols env [c1, c2, c3]) else {})"

definition totals_ok :: "crawl \<Rightarrow> bool" where
  "totals_ok st \<longleftrightarrow> finite (all_symbols st) \<and> sorted (totals st @ [card (all_symbols st)])"

section \<open>Example services\<close>

definition ok_response :: "string \<Rightarrow> exn + response" where
  "ok_response body = Inr \<lparr>status = 200, body_text = Inr body\<rparr>"



definition env_big :: env where
  \<comment> \<open>every request succeeds at once; the count reported is 15000 and every page holds the
      same rows: two symbols, a row without a symbol cell and a blank cell\<close>
  "env_big =
     \<lparr>session_get = (\<lambda>url attempt. ok_response ''Stocks (15000)''),
      soup_table = (\<lambda>body. Inr (Some [Some ''AAPL'', None, Some '' MSFT '', Some ''  '']))\<rparr>"




definition sat_rows :: "string option list" where
  \<comment> \<open>9000 rows with the symbols \<^verbatim>\<open>A\<close>, \<^verbatim>\<open>AA\<close>, \<^verbatim>\<open>AAA\<close>, ...\<close>
  "sat_rows = map (\<lambda>n. Some (replicate (Suc n) CHR ''A'')) [0..<9000]"

definition sat_symbols :: "string set" where
  "sat_symbols = (\<lambda>n. replicate (Suc n) CHR ''A'') ` {0..<9000}"

definition env_sat :: env where
  \<comment> \<open>every request succeeds at once; the count reported is 42 and every page holds the
      9000 rows of \<open>sat_rows\<close>\<close>
  "env_sat =
     \<lparr>session_get = (\<lambda>url attempt. ok_response ''Stocks (42)''),
      soup_table = (\<lambda>body. Inr (Some sat_rows))\<rparr>"

section \<open>The retry loop of \<^verbatim>\<open>fetch_url\<close>\<close>

lemma upt_3: "[0..<3] = [0, 1, 2::nat]"
  by (simp add: upt_rec)

lemma fetch_url_3:
  "fetch_url env url 3 =
     (case get_text env url 0 of
        Inr body \<Rightarrow> (Inr (Some body), [Request url])
      | Inl e0 \<Rightarrow>
          (case get_text env url 1 of
             Inr body \<Rightarrow> (Inr (Some body), [Request url, Warning 1 e0, Sleep 1, Request url])
           | Inl e1 \<Rightarrow>
               (case get_text env url 2 of
                  Inr body \<Rightarrow>
                    (Inr (Some body),
                     [Request url, Warning 1 e0, Sleep 1, Request url, Warning 2 e1, Sleep 1,
                      Request url])
                | Inl e2 \<Rightarrow>
                    (Inl e2,
                     [Request url, Warning 1 e0, Sleep 1, Request url, Warning 2 e1, Sleep 1,
                      Request url, Warning 3 e2]))))"
  by (simp add: fetch_url_def upt_3 split: sum.splits)

lemma fetch_url_3_not_None: "fst (fetch_url env url 3) \<noteq> Inr None"
  by (simp add: fetch_url_3 split: sum.splits)



section \<open>The block plan\<close>

lemma set_block_range:
  "set (block_range b stop) = {x. b \<le> x \<and> x < stop \<and> (x - b) mod 100 = 0}"
proof (induction b stop rule: block_range.induct)
  case (1 block stop)
  show ?case
  proof (cases "block < stop")
    case True
    have "{x. block \<le> x \<and> x < stop \<and> (x - block) mod 100 = 0}
          = insert block {x. block + 100 \<le> x \<and> x < stop \<and> (x - (block + 100)) mod 100 = 0}"
      (is "?L = insert block ?R")
    proof (intro set_eqI iffI)
      fix x assume "x \<in> ?L"
      then have x: "block \<le> x" "x < stop" "(x - block) mod 100 = 0" by auto
      show "x \<in> insert block ?R"
      proof (cases "x = block")
        case False
        have "100 \<le> x - block"
        proof (rule ccontr)
          assume "\<not> 100 \<le> x - block"
          with x have "(x - block) mod 100 = x - block" by (intro mod_pos_pos_trivial) simp_all
          with x False show False by simp
        qed
        moreover have "(x - block - 100) mod 100 = (x - block) mod 100"
          by (rule minus_mod_self2)
        with x have "(x - (block + 100)) mod 100 = 0" by (simp add: diff_diff_eq)
        ultimately show ?thesis using x by simp
      qed simp
    next
      fix x assume "x \<in> insert block ?R"
      then consider "x = block" | "block + 100 \<le> x" "x < stop" "(x - (block + 100)) mod 100 = 0"
        by auto
      then show "x \<in> ?L"
      proof cases
        case 1
        with True show ?thesis by simp
      next
        case 2
        have "(x - block - 100) mod 100 = (x - block) mod 100"
          by (rule minus_mod_self2)
        with 2 have "(x - block) mod 100 = 0" by (simp add: diff_diff_eq)
        with 2 show ?thesis by simp
      qed
    qed
    with 1 True show ?thesis by (subst block_range.simps) simp
  next
    case False
    then show ?thesis by (subst block_range.simps) auto
  qed
qed

lemma length_block_range:
  "length (block_range b stop) = nat ((stop - b + 99) div 100)"
proof (induction b stop rule: block_range.induct)
  case (1 block stop)
  show ?case
  proof (cases "block < stop")
    case True
    then have "0 \<le> (stop - (block + 100) + 99) div 100" by simp
    moreover have "(stop - block + 99) div 100 = ((stop - (block + 100) + 99) + 100) div 100"
      by simp
    then have "(stop - block + 99) div 100 = (stop - (block + 100) + 99) div 100 + 1"
      by simp
    ultimately have "nat ((stop - block + 99) div 100) = Suc (nat ((stop - (block + 100) + 99) div 100))"
      by simp
    with 1 True show ?thesis by (subst block_range.simps) simp
  next
    case False
    then have "(stop - block + 99) div 100 \<le> (99::int) div 100"
      by (intro zdiv_mono1) simp_all
    then have "nat ((stop - block + 99) div 100) = 0" by simp
    with False show ?thesis by (subst block_range.simps) simp
  qed
qed

lemma sorted_block_range: "sorted (block_range b stop) \<and> distinct (block_range b stop)"
proof (induction b stop rule: block_range.induct)
  case (1 block stop)
  show ?case
  proof (cases "block < stop")
    case True
    with 1 show ?thesis by (subst (1 2) block_range.simps) (auto simp: set_block_range)
  next
    case False
    then show ?thesis by (subst (1 2) block_range.simps) simp
  qed
qed

lemma planned_blocks_250: "planned_blocks 250 = [0, 100, 200]"
  by (simp add: planned_blocks_def block_range.simps)

lemma planned_blocks_42: "planned_blocks 42 = [0]"
  by (simp add: planned_blocks_def block_range.simps)

lemma zero_in_planned_blocks: "0 < count \<Longrightarrow> 0 \<in> set (planned_blocks count)"
  by (simp add: planned_blocks_def set_block_range)


text \<open>
  Claim C2. For a probed count greater than 0, the planned block offsets are exactly
  the multiples of 100 from 0 on that are strictly below \<open>min count 9000\<close>, each planned
  once; there is at least one block and there are at most 90.
\<close>

theorem planned_blocks_offsets:
  assumes "0 < count"
  shows "set (planned_blocks count) = {b. 0 \<le> b \<and> b < min count 9000 \<and> b mod 100 = 0}
       \<and> distinct (planned_blocks count)
       \<and> 1 \<le> length (planned_blocks count) \<and> length (planned_blocks count) \<le> 90"
proof -
  have "(min count 9000 - 0 + 99) div 100 \<le> (9099::int) div 100"
    by (rule zdiv_mono1) simp_all
  then have "nat ((min count 9000 - 0 + 99) div 100) \<le> 90" by simp
  moreover from assms have "(100::int) div 100 \<le> (min count 9000 - 0 + 99) div 100"
    by (intro zdiv_mono1) simp_all
  then have "1 \<le> nat ((min count 9000 - 0 + 99) div 100)" by simp
  ultimately have "1 \<le> length (planned_blocks count) \<and> length (planned_blocks count) \<le> 90"
    by (simp only: planned_blocks_def length_block_range)
  moreover have "set (planned_blocks count) = {b. 0 \<le> b \<and> b < min count 9000 \<and> b mod 100 = 0}"
    by (simp add: planned_blocks_def set_block_range)
  moreover have "distinct (planned_blocks count)"
    by (simp add: planned_blocks_def sorted_block_range)
  ultimately show ?thesis by blast
qed

theorem planned_blocks_offsets_witness:
  "(0::int) < 250
   \<and> planned_blocks 250 = [0, 100, 200]
   \<and> set (planned_blocks 250) = {b. 0 \<le> b \<and> b < min 250 9000 \<and> b mod 100 = 0}
   \<and> length (planned_blocks 250) \<le> 90"
  using planned_blocks_offsets [of 250] by (simp add: planned_blocks_250)

section \<open>The count read by \<^verbatim>\<open>extract_count\<close>\<close>



lemma extract_count_15000: "extract_count ''Stocks (15000)'' t = Inr 15000"
proof -
  have "py_int (count_slice ''Stocks (15000)'') = Inr 15000" by code_simp
  then show ?thesis by (simp add: extract_count_def)
qed


lemma extract_count_42: "extract_count ''Stocks (42)'' t = Inr 42"
proof -
  have "py_int (count_slice ''Stocks (42)'') = Inr 42" by code_simp
  then show ?thesis by (simp add: extract_count_def)
qed




section \<open>Blocks and search terms\<close>








lemma process_block_total: "\<exists>S. process_block env t b = Inr S"
  by (simp add: process_block_def split: sum.splits)

lemma finite_add_rows: "finite S \<Longrightarrow> finite (add_rows rows S)"
  by (induction rows arbitrary: S) (auto simp: Let_def split: option.splits)

lemma add_rows_set:
  "add_rows rows S = S \<union> {py_strip x |x. Some x \<in> set rows \<and> py_strip x \<noteq> []}"
  by (induction rows arbitrary: S) (auto simp: Let_def split: option.splits)

lemma finite_process_block: "process_block env t b = Inr S \<Longrightarrow> finite S"
  by (auto simp: process_block_def process_block_try_def finite_add_rows
      split: sum.splits option.splits)


lemma gather_map_total:
  assumes "\<And>x. \<exists>r. f x = Inr r"
  shows "gather (map f xs) = Inr (map (\<lambda>x. projr (f x)) xs)"
proof (induction xs)
  case Nil
  show ?case by simp
next
  case (Cons x xs)
  from assms obtain r where "f x = Inr r" by blast
  with Cons show ?case by simp
qed

lemma update_all_Union: "update_all rs S = S \<union> \<Union>(set rs)"
  by (induction rs arbitrary: S) (auto simp: set_update_def)


lemma process_search_term_try_blocks:
  "process_search_term_try env t =
     (case fst (fetch_url env (probe_url t) 3) of
        Inl e \<Rightarrow> Inl e
      | Inr None \<Rightarrow> Inl AttributeError
      | Inr (Some body) \<Rightarrow>
          (case extract_count body t of
             Inl e \<Rightarrow> Inl e
           | Inr count \<Rightarrow>
               Inr (\<Union>b\<in>set (planned_blocks count). projr (process_block env t b))))"
proof -
  have "planned_blocks 0 = []" by (simp add: planned_blocks_def block_range.simps)
  then show ?thesis
    by (auto simp: process_search_term_try_def gather_map_total [OF process_block_total]
        update_all_Union split: sum.splits option.splits)
qed

lemma process_search_term_total: "\<exists>S. process_search_term env t = Inr S"
  by (simp add: process_search_term_def split: sum.splits)

lemma finite_process_search_term: "process_search_term env t = Inr S \<Longrightarrow> finite S"
proof -
  have "finite (projr (process_block env t b))" for b
    using process_block_total [of env t b] finite_process_block [of env t b] by auto
  then show "process_search_term env t = Inr S \<Longrightarrow> finite S"
    by (auto simp: process_search_term_def process_search_term_try_blocks
        split: sum.splits option.splits)
qed

section \<open>The crawl loop\<close>

lemma finite_term_symbols: "finite (term_symbols env t)"
  using process_search_term_total [of env t] finite_process_search_term [of env t] by auto

lemma finite_prefix_symbols: "finite (prefix_symbols env c1 c2)"
  by (simp add: finite_term_symbols)

lemma main_c3_loop_eq:
  "main_c3_loop env c1 c2 cs acc =
     Inr (fst acc \<union> (\<Union>c3\<in>set cs. term_symbols env [c1, c2, c3]),
          snd acc @ map (\<lambda>c3. [c1, c2, c3]) cs)"
proof (induction cs arbitrary: acc)
  case Nil
  show ?case by simp
next
  case (Cons c3 cs)
  obtain S where "process_search_term env [c1, c2, c3] = Inr S"
    using process_search_term_total by blast
  with Cons show ?case by (simp add: set_update_def Un_assoc)
qed

lemma main_c2_body_eq:
  "main_c2_body env c1 c2 st =
     Inr \<lparr>all_symbols = all_symbols st \<union> prefix_symbols env c1 c2,
          searched = searched st @ prefix_terms env c1 c2,
          totals = totals st @ [card (all_symbols st \<union> prefix_symbols env c1 c2)]\<rparr>"
proof -
  obtain S where "process_search_term env [c1, c2] = Inr S"
    using process_search_term_total by blast
  then show ?thesis
    by (simp add: main_c2_body_def main_c3_loop_eq set_update_def)
qed

lemma totals_ok_step:
  assumes "totals_ok st" and "finite P"
  shows "totals_ok \<lparr>all_symbols = all_symbols st \<union> P, searched = tr,
                    totals = totals st @ [card (all_symbols st \<union> P)]\<rparr>"
proof -
  from assms have "card (all_symbols st) \<le> card (all_symbols st \<union> P)"
    by (simp add: totals_ok_def card_mono)
  with assms show ?thesis
    by (auto simp: totals_ok_def sorted_append)
qed

lemma main_c2_loop_eq:
  "\<exists>st'. main_c2_loop env c1 cs st = Inr st'
     \<and> all_symbols st' = all_symbols st \<union> (\<Union>c2\<in>set cs. prefix_symbols env c1 c2)
     \<and> searched st' = searched st @ concat (map (prefix_terms env c1) cs)
     \<and> length (totals st') = length (totals st) + length cs
     \<and> (totals_ok st \<longrightarrow> totals_ok st')"
proof (induction cs arbitrary: st)
  case Nil
  show ?case by simp
next
  case (Cons c2 cs)
  let ?st1 = "\<lparr>all_symbols = all_symbols st \<union> prefix_symbols env c1 c2,
          searched = searched st @ prefix_terms env c1 c2,
          totals = totals st @ [card (all_symbols st \<union> prefix_symbols env c1 c2)]\<rparr>"
  from Cons [of ?st1] obtain st' where st': "main_c2_loop env c1 cs ?st1 = Inr st'"
     "all_symbols st' = all_symbols ?st1 \<union> (\<Union>c2\<in>set cs. prefix_symbols env c1 c2)"
     "searched st' = searched ?st1 @ concat (map (prefix_terms env c1) cs)"
     "length (totals st') = length (totals ?st1) + length cs"
     "totals_ok ?st1 \<longrightarrow> totals_ok st'" by blast
  have "totals_ok st \<longrightarrow> totals_ok ?st1"
    using totals_ok_step [OF _ finite_prefix_symbols] by blast
  with st' have "main_c2_loop env c1 (c2 # cs) st = Inr st'
     \<and> all_symbols st' = all_symbols st \<union> (\<Union>c2\<in>set (c2 # cs). prefix_symbols env c1 c2)
     \<and> searched st' = searched st @ concat (map (prefix_terms env c1) (c2 # cs))
     \<and> length (totals st') = length (totals st) + length (c2 # cs)
     \<and> (totals_ok st \<longrightarrow> totals_ok st')"
    by (simp add: main_c2_body_eq Un_assoc)
  then show ?case by blast
qed

lemma main_c1_loop_eq:
  "\<exists>st'. main_c1_loop env cs st = Inr st'
     \<and> all_symbols st' =
         all_symbols st \<union> (\<Union>c1\<in>set cs. \<Union>c2\<in>set search_chars. prefix_symbols env c1 c2)
     \<and> searched st' =
         searched st @ concat (map (\<lambda>c1. concat (map (prefix_terms env c1) search_chars)) cs)
     \<and> length (totals st') = length (totals st) + length cs * length search_chars
     \<and> (totals_ok st \<longrightarrow> totals_ok st')"
proof (induction cs arbitrary: st)
  case Nil
  show ?case by simp
next
  case (Cons c1 cs)
  from main_c2_loop_eq [of env c1 search_chars st] obtain st1 where st1:
     "main_c2_loop env c1 search_chars st = Inr st1"
     "all_symbols st1 = all_symbols st \<union> (\<Union>c2\<in>set search_chars. prefix_symbols env c1 c2)"
     "searched st1 = searched st @ concat (map (prefix_terms env c1) search_chars)"
     "length (totals st1) = length (totals st) + length search_chars"
     "totals_ok st \<longrightarrow> totals_ok st1" by blast
  from Cons [of st1] obtain st' where st': "main_c1_loop env cs st1 = Inr st'"
     "all_symbols st' =
         all_symbols st1 \<union> (\<Union>c1\<in>set cs. \<Union>c2\<in>set search_chars. prefix_symbols env c1 c2)"
     "searched st' =
         searched st1 @ concat (map (\<lambda>c1. concat (map (prefix_terms env c1) search_chars)) cs)"
     "length (totals st') = length (totals st1) + length cs * length search_chars"
     "totals_ok st1 \<longrightarrow> totals_ok st'" by blast
  have "main_c1_loop env (c1 # cs) st = Inr st'" using st1(1) st'(1) by simp
  moreover have "all_symbols st' =
         all_symbols st \<union> (\<Union>c1\<in>set (c1 # cs). \<Union>c2\<in>set search_chars. prefix_symbols env c1 c2)"
    unfolding st'(2) st1(2) by (simp add: Un_assoc)
  moreover have "searched st' =
         searched st @ concat (map (\<lambda>c1. concat (map (prefix_terms env c1) search_chars)) (c1 # cs))"
    unfolding st'(3) st1(3) by simp
  moreover have "length (totals st') = length (totals st) + length (c1 # cs) * length search_chars"
    unfolding st'(4) st1(4) by simp
  moreover have "totals_ok st \<longrightarrow> totals_ok st'" using st1(5) st'(5) by blast
  ultimately show ?case by blast
qed

lemma main_eq:
  "\<exists>st. main env = Inr st
     \<and> all_symbols st = (\<Union>c1\<in>set search_chars. \<Union>c2\<in>set search_chars. prefix_symbols env c1 c2)
     \<and> searched st = concat (map (\<lambda>c1. concat (map (prefix_terms env c1) search_chars)) search_chars)
     \<and> length (totals st) = length search_chars * length search_chars
     \<and> totals_ok st"
proof -
  have "totals_ok \<lparr>all_symbols = {}, searched = [], totals = []\<rparr>"
    by (simp add: totals_ok_def)
  with main_c1_loop_eq [of env search_chars "\<lparr>all_symbols = {}, searched = [], totals = []\<rparr>"]
  show ?thesis by (auto simp: main_def)
qed


lemma search_chars_eq: "search_chars = ''ABCDEFGHIJKLMNOPQRSTUVWXYZ0123456789''"
  by code_simp


lemma distinct_search_chars: "distinct search_chars"
  by (simp add: search_chars_eq)



lemma other_lengths_prefix_terms:
  "filter (\<lambda>t. length t \<noteq> 2 \<and> length t \<noteq> 3)
     (concat (map (\<lambda>c1. concat (map (prefix_terms env c1) cs2)) cs1)) = []"
proof -
  have "filter (\<lambda>t. length t \<noteq> 2 \<and> length t \<noteq> 3) (concat (map (prefix_terms env c1) cs)) = []"
    for c1 cs
    by (induction cs) simp_all
  then show ?thesis by (induction cs1) simp_all
qed


section \<open>The example services, evaluated\<close>

lemma fetch_url_env_big: "fst (fetch_url env_big url 3) = Inr (Some ''Stocks (15000)'')"
  by (simp add: fetch_url_3 get_text_def env_big_def ok_response_def)

lemma process_block_env_big: "process_block env_big t b = Inr {''AAPL'', ''MSFT''}"
proof -
  have "add_rows [Some ''AAPL'', None, Some '' MSFT '', Some ''  ''] {} = {''AAPL'', ''MSFT''}"
    by (simp add: py_strip_def py_isspace_def insert_commute)
  moreover have "soup_table env_big ''Stocks (15000)''
                 = Inr (Some [Some ''AAPL'', None, Some '' MSFT '', Some ''  ''])"
    by (simp add: env_big_def)
  ultimately show ?thesis
    by (simp add: process_block_def process_block_try_def fetch_url_env_big)
qed

lemma process_search_term_env_big: "process_search_term env_big t = Inr {''AAPL'', ''MSFT''}"
proof -
  have "set (planned_blocks 15000) \<noteq> {}" using zero_in_planned_blocks [of 15000] by auto
  then show ?thesis
    by (simp add: process_search_term_def process_search_term_try_blocks fetch_url_env_big
        extract_count_15000 process_block_env_big)
qed










lemma py_strip_As: "py_strip (replicate (Suc n) CHR ''A'') = replicate (Suc n) CHR ''A''"
proof -
  have "\<not> py_isspace CHR ''A''" by (simp add: py_isspace_def)
  then have "dropWhile py_isspace (replicate (Suc n) CHR ''A'') = replicate (Suc n) CHR ''A''"
    by simp
  then show ?thesis by (simp only: py_strip_def rev_replicate)
qed

lemma add_rows_As:
  "add_rows (map (\<lambda>n. Some (replicate (Suc n) CHR ''A'')) [0..<k]) {}
   = (\<lambda>n. replicate (Suc n) CHR ''A'') ` {0..<k}"
proof -
  have "{py_strip x |x. Some x \<in> set (map (\<lambda>n. Some (replicate (Suc n) CHR ''A'')) [0..<k])
          \<and> py_strip x \<noteq> []}
        = {replicate (Suc n) CHR ''A'' |n. n < k}"
    (is "?L = ?R")
  proof (intro set_eqI iffI)
    fix y assume "y \<in> ?L"
    then obtain n where "n < k" "y = py_strip (replicate (Suc n) CHR ''A'')" by auto
    then show "y \<in> ?R" by (auto simp only: py_strip_As)
  next
    fix y assume "y \<in> ?R"
    then obtain n where n: "n < k" "y = replicate (Suc n) CHR ''A''" by auto
    then have "y = py_strip (replicate (Suc n) CHR ''A'')" "py_strip (replicate (Suc n) CHR ''A'') \<noteq> []"
      by (simp_all only: py_strip_As) simp
    with n(1) show "y \<in> ?L" by force
  qed
  moreover have "{replicate (Suc n) CHR ''A'' |n. n < k}
                 = (\<lambda>n. replicate (Suc n) CHR ''A'') ` {0..<k}"
    by (auto simp del: replicate_Suc)
  ultimately show ?thesis by (simp only: add_rows_set Un_empty_left)
qed

lemma add_rows_sat: "add_rows sat_rows {} = sat_symbols"
  unfolding sat_rows_def sat_symbols_def by (rule add_rows_As)

lemma card_As: "card ((\<lambda>n. replicate (Suc n) CHR ''A'') ` {0..<k}) = k"
proof -
  have "inj_on (\<lambda>n. replicate (Suc n) CHR ''A'') {0..<k}"
    by (rule inj_onI) (metis length_replicate nat.inject)
  then show ?thesis by (simp add: card_image)
qed

lemma card_sat_symbols: "card sat_symbols = 9000"
  unfolding sat_symbols_def by (rule card_As)

lemma fetch_url_env_sat: "fst (fetch_url env_sat url 3) = Inr (Some ''Stocks (42)'')"
  by (simp add: fetch_url_3 get_text_def env_sat_def ok_response_def)

lemma process_block_env_sat: "process_block env_sat t b = Inr sat_symbols"
proof -
  have "soup_table env_sat ''Stocks (42)'' = Inr (Some sat_rows)" by (simp add: env_sat_def)
  then show ?thesis
    by (simp add: process_block_def process_block_try_def fetch_url_env_sat add_rows_sat)
qed

lemma process_search_term_env_sat: "process_search_term env_sat t = Inr sat_symbols"
  by (simp add: process_search_term_def process_search_term_try_blocks fetch_url_env_sat
      extract_count_42 planned_blocks_42 process_block_env_sat)

section \<open>Refinement\<close>

text \<open>
  Claim C1 says that a 2-character prefix is refined exactly when its probed count is
  at least 9000. With \<open>env_big\<close> the probe of \<^verbatim>\<open>AA\<close> reports 15000, every page
  holds the same two symbols, and \<^verbatim>\<open>main\<close> searches \<^verbatim>\<open>AA\<close> only: no 3-character
  term follows.
\<close>

theorem refinement_ignores_probed_count:
  "fst (fetch_url env_big (probe_url ''AA'') 3) = Inr (Some ''Stocks (15000)'')
   \<and> extract_count ''Stocks (15000)'' ''AA'' = Inr 15000
   \<and> (9000::int) \<le> 15000
   \<and> main_c2_body env_big CHR ''A'' CHR ''A'' \<lparr>all_symbols = {}, searched = [], totals = []\<rparr>
       = Inr \<lparr>all_symbols = {''AAPL'', ''MSFT''}, searched = [''AA''], totals = [2]\<rparr>"
  by (simp add: fetch_url_env_big extract_count_15000 main_c2_body_eq process_search_term_env_big)

text \<open>
  Claim C1, amended. A 2-character prefix is refined into its 36 3-character
  extensions if and only if the set \<^verbatim>\<open>process_search_term\<close> returned for it has at
  least 9000 elements: the terms searched for the prefix are the prefix itself,
  followed by the extensions exactly when \<^verbatim>\<open>len(symbols) >= 9000\<close>. The decision is a
  function of the size of the collected set, not of the probed count. (With
  \<open>env_sat\<close> the probe reports 42 and the prefix is refined.)
\<close>

theorem refinement_by_result_size:
  "\<exists>st'. main_c2_body env c1 c2 st = Inr st'
     \<and> searched st' =
         searched st @ [c1, c2] #
           (if 9000 \<le> card (projr (process_search_term env [c1, c2]))
            then map (\<lambda>c3. [c1, c2, c3]) search_chars else [])"
  by (simp add: main_c2_body_eq)

theorem refinement_by_result_size_witness:
  "fst (fetch_url env_sat (probe_url ''AA'') 3) = Inr (Some ''Stocks (42)'')
   \<and> extract_count ''Stocks (42)'' ''AA'' = Inr 42
   \<and> searched (projr (main_c2_body env_sat CHR ''A'' CHR ''A''
                     \<lparr>all_symbols = {}, searched = [], totals = []\<rparr>))
       = ''AA'' # map (\<lambda>c3. [CHR ''A'', CHR ''A'', c3]) search_chars"
  using refinement_by_result_size [of env_sat "CHR ''A''" "CHR ''A''"
      "\<lparr>all_symbols = {}, searched = [], totals = []\<rparr>"]
  by (auto simp: fetch_url_env_sat extract_count_42 process_search_term_env_sat card_sat_symbols)

text \<open>
  Claim C8. Refinement is single-level: the loop over the extensions of a prefix
  calls \<^verbatim>\<open>process_search_term\<close> once for each of the 36 3-character terms and for
  nothing else, whatever these calls return, and every term \<^verbatim>\<open>main\<close> searches has 2
  or 3 characters.
\<close>

theorem refinement_single_level:
  "(\<exists>S. main_c3_loop env c1 c2 search_chars (symbols, terms)
          = Inr (S, terms @ map (\<lambda>c3. [c1, c2, c3]) search_chars))
   \<and> (\<exists>st. main env = Inr st
         \<and> filter (\<lambda>t. length t \<noteq> 2 \<and> length t \<noteq> 3) (searched st) = [])"
proof -
  from main_eq [of env] obtain st where st: "main env = Inr st"
    "searched st = concat (map (\<lambda>c1. concat (map (prefix_terms env c1) search_chars)) search_chars)"
    by blast
  have "filter (\<lambda>t. length t \<noteq> 2 \<and> length t \<noteq> 3) (searched st) = []"
    unfolding st(2) by (rule other_lengths_prefix_terms)
  with st(1) show ?thesis by (simp add: main_c3_loop_eq)
qed

theorem refinement_single_level_witness:
  "card (projr (process_search_term env_sat ''AAA'')) = 9000
   \<and> snd (projr (main_c3_loop env_sat CHR ''A'' CHR ''A'' search_chars ({}, [''AA''])))
       = ''AA'' # map (\<lambda>c3. [CHR ''A'', CHR ''A'', c3]) search_chars"
  using refinement_single_level [of env_sat "CHR ''A''" "CHR ''A''" "{}" "[''AA'']"]
  by (auto simp: process_search_term_env_sat card_sat_symbols)



section \<open>Fault isolation\<close>



section \<open>The probe and the first block\<close>






section \<open>The global symbol set\<close>



end
